theory Spec2Isabelle
  imports Complex_Main "HOL-Library.Word" "HOL-Library.Sublist" "HOL-Library.AList"
begin

section \<open>JavaScript values\<close>

text \<open>
  A JavaScript string is a sequence of UTF-16 code units. String literals of the source
  are written \<open>js ''...''\<close>.
\<close>

type_synonym jsstring = "16 word list"

definition ch :: "char \<Rightarrow> 16 word" where
  "ch c = of_nat (of_char c)"

definition js :: "string \<Rightarrow> jsstring" where
  "js s = map ch s"

text \<open>
  A JavaScript number is an IEEE double; every finite double is a rational, and the
  numbers of this program (clock readings, ids, numeric literals of a JSON text) are
  finite. Rounding to the nearest double is not part of the model.
\<close>

type_synonym number = rat

text \<open>
  The values \<open>JSON.parse\<close> can return. An object keeps its members in the order of the
  text, repeated keys included; property lookup takes the last one.
\<close>

datatype json =
    JNull
  | JBool bool
  | JNumber number
  | JString jsstring
  | JArray "json list"
  | JObject "(jsstring \<times> json) list"

text \<open>
  \<open>String.prototype.trim\<close> removes the code units of WhiteSpace and LineTerminator
  (ECMA-262) from both ends.
\<close>

definition is_white_space :: "16 word \<Rightarrow> bool" where
  "is_white_space c \<longleftrightarrow>
     c = 0x9 \<or> c = 0xA \<or> c = 0xB \<or> c = 0xC \<or> c = 0xD \<or> c = 0x20 \<or> c = 0xA0 \<or>
     c = 0x1680 \<or> (0x2000 \<le> c \<and> c \<le> 0x200A) \<or> c = 0x2028 \<or> c = 0x2029 \<or>
     c = 0x202F \<or> c = 0x205F \<or> c = 0x3000 \<or> c = 0xFEFF"

definition trim :: "jsstring \<Rightarrow> jsstring" where
  "trim s = rev (dropWhile is_white_space (rev (dropWhile is_white_space s)))"

section \<open>JSON.parse\<close>

text \<open>
  \<open>JSON.parse\<close> is the platform's parser of the JSON grammar (ECMA-404); \<open>None\<close> stands
  for the \<open>SyntaxError\<close> it throws. The text is read once from left to right: a lexer
  splits it into tokens, and a stack of the arrays and objects still open builds the
  value. A number or a keyword ends at the first code unit that cannot continue it.
\<close>

datatype token = TLBracket | TRBracket | TLBrace | TRBrace | TComma | TColon | TValue json

datatype lexmode =
    Between
  | InString jsstring
  | InEscape jsstring
  | InUnicode jsstring jsstring
  | InNumber jsstring
  | InWord jsstring

definition is_json_space :: "16 word \<Rightarrow> bool" where
  "is_json_space c \<longleftrightarrow> c = 0x20 \<or> c = 0x9 \<or> c = 0xA \<or> c = 0xD"

definition is_digit :: "16 word \<Rightarrow> bool" where
  "is_digit c \<longleftrightarrow> ch CHR ''0'' \<le> c \<and> c \<le> ch CHR ''9''"

definition is_letter :: "16 word \<Rightarrow> bool" where
  "is_letter c \<longleftrightarrow> ch CHR ''a'' \<le> c \<and> c \<le> ch CHR ''z''"

definition is_number_char :: "16 word \<Rightarrow> bool" where
  "is_number_char c \<longleftrightarrow>
     is_digit c \<or> c = ch CHR ''-'' \<or> c = ch CHR ''+'' \<or> c = ch CHR ''.'' \<or>
     c = ch CHR ''e'' \<or> c = ch CHR ''E''"

definition hex_value :: "16 word \<Rightarrow> nat option" where
  "hex_value c =
     (if is_digit c then Some (unat c - 48)
      else if ch CHR ''a'' \<le> c \<and> c \<le> ch CHR ''f'' then Some (unat c - 87)
      else if ch CHR ''A'' \<le> c \<and> c \<le> ch CHR ''F'' then Some (unat c - 55)
      else None)"

definition digits_value :: "jsstring \<Rightarrow> nat" where
  "digits_value ds = foldl (\<lambda>a c. 10 * a + (unat c - 48)) 0 ds"

definition hex_unit :: "jsstring \<Rightarrow> 16 word" where
  "hex_unit hs = of_nat (foldl (\<lambda>a c. 16 * a + (case hex_value c of None \<Rightarrow> 0 | Some d \<Rightarrow> d)) 0 hs)"

text \<open>
  A number is \<open>-? (0 | [1-9][0-9]*) (. [0-9]+)? ([eE] [+-]? [0-9]+)?\<close>; its value is
  the decimal it writes.
\<close>

definition number_of :: "jsstring \<Rightarrow> number option" where
  "number_of s =
     (let neg = (s \<noteq> [] \<and> hd s = ch CHR ''-'');
          s1 = (if neg then tl s else s);
          ip = takeWhile is_digit s1;
          s2 = dropWhile is_digit s1;
          has_frac = (s2 \<noteq> [] \<and> hd s2 = ch CHR ''.'');
          fp = (if has_frac then takeWhile is_digit (tl s2) else []);
          s3 = (if has_frac then dropWhile is_digit (tl s2) else s2);
          has_exp = (s3 \<noteq> [] \<and> (hd s3 = ch CHR ''e'' \<or> hd s3 = ch CHR ''E''));
          s4 = (if has_exp then tl s3 else s3);
          eneg = (has_exp \<and> s4 \<noteq> [] \<and> hd s4 = ch CHR ''-'');
          s5 = (if has_exp \<and> s4 \<noteq> [] \<and> (hd s4 = ch CHR ''-'' \<or> hd s4 = ch CHR ''+'')
                then tl s4 else s4);
          ep = (if has_exp then takeWhile is_digit s5 else []);
          s6 = (if has_exp then dropWhile is_digit s5 else s5)
      in if ip = [] \<or> (hd ip = ch CHR ''0'' \<and> length ip \<noteq> 1) \<or> (has_frac \<and> fp = []) \<or>
            (has_exp \<and> ep = []) \<or> s6 \<noteq> []
         then None
         else Some ((if neg then - 1 else 1) * of_nat (digits_value (ip @ fp)) / 10 ^ length fp *
                    (if eneg then 1 / 10 ^ digits_value ep else 10 ^ digits_value ep)))"

definition keyword_of :: "jsstring \<Rightarrow> json option" where
  "keyword_of w =
     (if w = js ''null'' then Some JNull
      else if w = js ''true'' then Some (JBool True)
      else if w = js ''false'' then Some (JBool False)
      else None)"

definition lex_between :: "16 word \<Rightarrow> token list \<Rightarrow> (lexmode \<times> token list) option" where
  "lex_between c out =
     (if is_json_space c then Some (Between, out)
      else if c = ch CHR ''['' then Some (Between, out @ [TLBracket])
      else if c = ch CHR '']'' then Some (Between, out @ [TRBracket])
      else if c = ch CHR ''{'' then Some (Between, out @ [TLBrace])
      else if c = ch CHR ''}'' then Some (Between, out @ [TRBrace])
      else if c = ch CHR '','' then Some (Between, out @ [TComma])
      else if c = ch CHR '':'' then Some (Between, out @ [TColon])
      else if c = 0x22 then Some (InString [], out)
      else if is_digit c \<or> c = ch CHR ''-'' then Some (InNumber [c], out)
      else if is_letter c then Some (InWord [c], out)
      else None)"

fun lex_step :: "16 word \<Rightarrow> lexmode \<times> token list \<Rightarrow> (lexmode \<times> token list) option" where
  "lex_step c (Between, out) = lex_between c out"
| "lex_step c (InString acc, out) =
     (if c = 0x22 then Some (Between, out @ [TValue (JString acc)])
      else if c = 0x5C then Some (InEscape acc, out)
      else if c < 0x20 then None
      else Some (InString (acc @ [c]), out))"
| "lex_step c (InEscape acc, out) =
     (if c = 0x22 \<or> c = 0x5C \<or> c = ch CHR ''/'' then Some (InString (acc @ [c]), out)
      else if c = ch CHR ''b'' then Some (InString (acc @ [0x8]), out)
      else if c = ch CHR ''f'' then Some (InString (acc @ [0xC]), out)
      else if c = ch CHR ''n'' then Some (InString (acc @ [0xA]), out)
      else if c = ch CHR ''r'' then Some (InString (acc @ [0xD]), out)
      else if c = ch CHR ''t'' then Some (InString (acc @ [0x9]), out)
      else if c = ch CHR ''u'' then Some (InUnicode acc [], out)
      else None)"
| "lex_step c (InUnicode acc hs, out) =
     (if hex_value c = None then None
      else if length hs = 3 then Some (InString (acc @ [hex_unit (hs @ [c])]), out)
      else Some (InUnicode acc (hs @ [c]), out))"
| "lex_step c (InNumber n, out) =
     (if is_number_char c then Some (InNumber (n @ [c]), out)
      else (case number_of n of
              None \<Rightarrow> None
            | Some r \<Rightarrow> lex_between c (out @ [TValue (JNumber r)])))"
| "lex_step c (InWord w, out) =
     (if is_letter c then Some (InWord (w @ [c]), out)
      else (case keyword_of w of
              None \<Rightarrow> None
            | Some v \<Rightarrow> lex_between c (out @ [TValue v])))"

fun lex_end :: "lexmode \<times> token list \<Rightarrow> token list option" where
  "lex_end (Between, out) = Some out"
| "lex_end (InNumber n, out) = map_option (\<lambda>r. out @ [TValue (JNumber r)]) (number_of n)"
| "lex_end (InWord w, out) = map_option (\<lambda>v. out @ [TValue v]) (keyword_of w)"
| "lex_end (_, out) = None"

fun lex_run :: "jsstring \<Rightarrow> lexmode \<times> token list \<Rightarrow> token list option" where
  "lex_run [] st = lex_end st"
| "lex_run (c # cs) st = (case lex_step c st of None \<Rightarrow> None | Some st' \<Rightarrow> lex_run cs st')"

datatype frame =
    ArrayFrame "json list"
  | ObjectFrame "(jsstring \<times> json) list" "jsstring option"

datatype expect =
    ExpValue
  | ExpValueOrEnd
  | ExpCommaOrEnd
  | ExpKey
  | ExpKeyOrEnd
  | ExpColon
  | ExpEOF json

fun deliver :: "json \<Rightarrow> frame list \<Rightarrow> (frame list \<times> expect) option" where
  "deliver v [] = Some ([], ExpEOF v)"
| "deliver v (ArrayFrame xs # st) = Some (ArrayFrame (xs @ [v]) # st, ExpCommaOrEnd)"
| "deliver v (ObjectFrame ms (Some k) # st) = Some (ObjectFrame (ms @ [(k, v)]) None # st, ExpCommaOrEnd)"
| "deliver v (ObjectFrame ms None # st) = None"

definition open_or_value :: "token \<Rightarrow> frame list \<Rightarrow> (frame list \<times> expect) option" where
  "open_or_value tok st =
     (case tok of
        TValue v \<Rightarrow> deliver v st
      | TLBracket \<Rightarrow> Some (ArrayFrame [] # st, ExpValueOrEnd)
      | TLBrace \<Rightarrow> Some (ObjectFrame [] None # st, ExpKeyOrEnd)
      | _ \<Rightarrow> None)"

definition close_array :: "frame list \<Rightarrow> (frame list \<times> expect) option" where
  "close_array st = (case st of ArrayFrame xs # st' \<Rightarrow> deliver (JArray xs) st' | _ \<Rightarrow> None)"

definition close_object :: "frame list \<Rightarrow> (frame list \<times> expect) option" where
  "close_object st =
     (case st of ObjectFrame ms None # st' \<Rightarrow> deliver (JObject ms) st' | _ \<Rightarrow> None)"

definition read_key :: "token \<Rightarrow> frame list \<Rightarrow> (frame list \<times> expect) option" where
  "read_key tok st =
     (case tok of
        TValue (JString k) \<Rightarrow>
          (case st of
             ObjectFrame ms None # st' \<Rightarrow> Some (ObjectFrame ms (Some k) # st', ExpColon)
           | _ \<Rightarrow> None)
      | _ \<Rightarrow> None)"

definition next_item :: "frame list \<Rightarrow> (frame list \<times> expect) option" where
  "next_item st =
     (case st of
        ArrayFrame xs # st' \<Rightarrow> Some (st, ExpValue)
      | ObjectFrame ms None # st' \<Rightarrow> Some (st, ExpKey)
      | _ \<Rightarrow> None)"

fun parse_step :: "token \<Rightarrow> frame list \<times> expect \<Rightarrow> (frame list \<times> expect) option" where
  "parse_step tok (st, ExpValue) = open_or_value tok st"
| "parse_step tok (st, ExpValueOrEnd) =
     (if tok = TRBracket then close_array st else open_or_value tok st)"
| "parse_step tok (st, ExpCommaOrEnd) =
     (if tok = TComma then next_item st
      else if tok = TRBracket then close_array st
      else if tok = TRBrace then close_object st
      else None)"
| "parse_step tok (st, ExpKey) = read_key tok st"
| "parse_step tok (st, ExpKeyOrEnd) =
     (if tok = TRBrace then close_object st else read_key tok st)"
| "parse_step tok (st, ExpColon) = (if tok = TColon then Some (st, ExpValue) else None)"
| "parse_step tok (st, ExpEOF v) = None"

fun parse_run :: "token list \<Rightarrow> frame list \<times> expect \<Rightarrow> (frame list \<times> expect) option" where
  "parse_run [] st = Some st"
| "parse_run (t # ts) st = (case parse_step t st of None \<Rightarrow> None | Some st' \<Rightarrow> parse_run ts st')"

definition JSON_parse :: "jsstring \<Rightarrow> json option" where
  "JSON_parse s =
     (case lex_run s (Between, []) of
        None \<Rightarrow> None
      | Some toks \<Rightarrow>
          (case parse_run toks ([], ExpValue) of
             Some ([], ExpEOF v) \<Rightarrow> Some v
           | _ \<Rightarrow> None))"

section \<open>Durable store\<close>

text \<open>
  What the source can throw, and what it reports: \<open>console.error\<close> with an optional
  leading message, and \<open>alert\<close>.
\<close>

datatype js_error =
    SecurityError
  | QuotaExceededError
  | SyntaxError
  | TypeError
  | Error string

datatype effect =
    ConsoleError string js_error
  | Alert string

text \<open>
  \<open>try { body } catch (error) { handler }\<close>: the handler runs on what the body throws, and
  may throw itself.
\<close>

definition try_catch :: "js_error + 'a \<Rightarrow> (js_error \<Rightarrow> js_error + 'a) \<Rightarrow> js_error + 'a" where
  "try_catch body handler = (case body of Inl e \<Rightarrow> handler e | Inr v \<Rightarrow> Inr v)"

text \<open>
  \<open>window.localStorage\<close>: the stored items, whether access is denied (reading
  \<open>window.localStorage\<close> then throws a SecurityError), and the quota in code units
  (a write past it throws a QuotaExceededError).
\<close>

record storage =
  items :: "(jsstring \<times> jsstring) list"
  denied :: bool
  quota :: nat

definition usage :: "(jsstring \<times> jsstring) list \<Rightarrow> nat" where
  "usage kvs = sum_list (map (\<lambda>(k, v). length k + length v) kvs)"

definition getItem :: "jsstring \<Rightarrow> storage \<Rightarrow> js_error + jsstring option" where
  "getItem key st = (if denied st then Inl SecurityError else Inr (map_of (items st) key))"

definition setItem :: "jsstring \<Rightarrow> jsstring \<Rightarrow> storage \<Rightarrow> js_error + storage" where
  "setItem key v st =
     (if denied st then Inl SecurityError
      else if quota st < usage (AList.update key v (items st)) then Inl QuotaExceededError
      else Inr (st\<lparr>items := AList.update key v (items st)\<rparr>))"

text \<open>
  The initialiser that \<open>useLocalStorage\<close> gives to \<open>useState\<close>: the value the hook starts
  from, with what was written to the console. \<open>item ? JSON.parse(item) : initialValue\<close>
  takes the second branch for \<open>null\<close> (no item under the key) and for the empty string.
\<close>

definition useLocalStorage_init ::
  "storage \<Rightarrow> jsstring \<Rightarrow> json \<Rightarrow> js_error + (json \<times> effect list)" where
  "useLocalStorage_init st key initialValue =
     try_catch
       (case getItem key st of
          Inl e \<Rightarrow> Inl e
        | Inr None \<Rightarrow> Inr (initialValue, [])
        | Inr (Some item) \<Rightarrow>
            (if item = [] then Inr (initialValue, [])
             else (case JSON_parse item of
                     None \<Rightarrow> Inl SyntaxError
                   | Some v \<Rightarrow> Inr (v, []))))
       (\<lambda>error. Inr (initialValue, [ConsoleError [] error]))"

text \<open>
  The state of one use of the hook, and \<open>setValue\<close>. \<open>stringify\<close> is \<open>JSON.stringify\<close>
  at the type of the stored value.
\<close>

record 'a hook =
  storedValue :: 'a
  localStorage :: storage
  console :: "effect list"

definition setValue :: "('a \<Rightarrow> jsstring) \<Rightarrow> jsstring \<Rightarrow> 'a \<Rightarrow> 'a hook \<Rightarrow> js_error + 'a hook" where
  "setValue stringify key v h =
     try_catch
       (case setItem key (stringify v) (localStorage (h\<lparr>storedValue := v\<rparr>)) of
          Inl e \<Rightarrow> Inl e
        | Inr st \<Rightarrow> Inr (h\<lparr>storedValue := v, localStorage := st\<rparr>))
       (\<lambda>error. Inr (h\<lparr>storedValue := v, console := console h @ [ConsoleError [] error]\<rparr>))"

section \<open>Tasks\<close>

text \<open>
  \<open>interface SubTask\<close> and \<open>interface Task\<close>. The optional fields \<open>subtasks?\<close> and
  \<open>isExpanded?\<close> are \<open>None\<close> when the property is \<open>undefined\<close>. The text of a subtask is
  whatever element the parsed answer of the text-generation service holds: the source
  stores it unchecked.
\<close>

record SubTask =
  subtask_id :: number
  subtask_text :: json
  subtask_completed :: bool

record Task =
  task_id :: number
  task_text :: jsstring
  task_completed :: bool
  subtasks :: "SubTask list option"
  isExpanded :: "bool option"

text \<open>
  The task handlers. Each is given the \<open>tasks\<close> of the render it was created in and
  returns the collection it passes to \<open>setTasks\<close>.
\<close>

definition toggleTask :: "number \<Rightarrow> Task list \<Rightarrow> Task list" where
  "toggleTask i ts =
     map (\<lambda>t. if task_id t = i then t\<lparr>task_completed := \<not> task_completed t\<rparr> else t) ts"

definition toggleSubtask :: "number \<Rightarrow> number \<Rightarrow> Task list \<Rightarrow> Task list" where
  "toggleSubtask taskId subtaskId ts =
     map (\<lambda>t. if task_id t \<noteq> taskId then t
              else t\<lparr>subtasks :=
                     map_option
                       (map (\<lambda>st. if subtask_id st = subtaskId
                                   then st\<lparr>subtask_completed := \<not> subtask_completed st\<rparr>
                                   else st))
                       (subtasks t)\<rparr>)
         ts"

definition deleteTask :: "number \<Rightarrow> Task list \<Rightarrow> Task list" where
  "deleteTask i ts = filter (\<lambda>t. task_id t \<noteq> i) ts"

definition toggleExpand :: "number \<Rightarrow> Task list \<Rightarrow> Task list" where
  "toggleExpand i ts =
     map (\<lambda>t. if task_id t = i
              then t\<lparr>isExpanded := Some (case isExpanded t of None \<Rightarrow> True | Some b \<Rightarrow> \<not> b)\<rparr>
              else t) ts"

text \<open>
  \<open>addTask\<close> reads the input field \<open>newTask\<close> and the clock (\<open>Date.now()\<close>, an
  integer number of milliseconds). It returns the task collection and the input field
  after the handler; on the early return neither setter is called.
\<close>

definition addTask :: "int \<Rightarrow> jsstring \<Rightarrow> Task list \<Rightarrow> Task list \<times> jsstring" where
  "addTask now newTask ts =
     (if trim newTask = [] then (ts, newTask)
      else (ts @ [\<lparr>task_id = of_int now, task_text = newTask, task_completed = False,
                       subtasks = Some [], isExpanded = Some False\<rparr>],
            []))"

text \<open>
  The two expressions of \<open>handleSmartBreakdown\<close> that build and attach the subtasks.
  \<open>gen k\<close> is the value of \<open>Date.now() + Math.random()\<close> at its \<open>k\<close>-th evaluation
  inside \<open>steps.map\<close>.
\<close>

definition newSubtasks :: "(nat \<Rightarrow> number) \<Rightarrow> json list \<Rightarrow> SubTask list" where
  "newSubtasks gen steps =
     map (\<lambda>(k, step). \<lparr>subtask_id = gen k, subtask_text = step, subtask_completed = False\<rparr>)
         (enumerate 0 steps)"

definition attachSubtasks :: "number \<Rightarrow> SubTask list \<Rightarrow> Task list \<Rightarrow> Task list" where
  "attachSubtasks taskId new ts =
     map (\<lambda>t. if task_id t = taskId
              then t\<lparr>subtasks := Some ((case subtasks t of None \<Rightarrow> [] | Some sts \<Rightarrow> sts) @ new),
                     isExpanded := Some True\<rparr>
              else t) ts"

text \<open>
  The operations on the task collection, as a user or a finished breakdown request
  applies them one after another.
\<close>

datatype operation =
    Add int jsstring
  | ToggleCompleted number
  | ToggleSubtaskCompleted number number
  | Remove number
  | ToggleExpanded number
  | AttachSubtasks number "nat \<Rightarrow> number" "json list"

fun apply_operation :: "operation \<Rightarrow> Task list \<Rightarrow> Task list" where
  "apply_operation (Add now txt) ts = fst (addTask now txt ts)"
| "apply_operation (ToggleCompleted i) ts = toggleTask i ts"
| "apply_operation (ToggleSubtaskCompleted i j) ts = toggleSubtask i j ts"
| "apply_operation (Remove i) ts = deleteTask i ts"
| "apply_operation (ToggleExpanded i) ts = toggleExpand i ts"
| "apply_operation (AttachSubtasks i gen steps) ts = attachSubtasks i (newSubtasks gen steps) ts"

fun run_operations :: "operation list \<Rightarrow> Task list \<Rightarrow> Task list" where
  "run_operations [] ts = ts"
| "run_operations (x # xs) ts = run_operations xs (apply_operation x ts)"

definition subtask_ids :: "Task \<Rightarrow> number list" where
  "subtask_ids t = map subtask_id (case subtasks t of None \<Rightarrow> [] | Some sts \<Rightarrow> sts)"

definition ids_unique :: "Task list \<Rightarrow> bool" where
  "ids_unique ts \<longleftrightarrow> distinct (map task_id ts) \<and> list_all (\<lambda>t. distinct (subtask_ids t)) ts"

text \<open>
  What the environment has to supply for an operation to create only unused ids: a
  clock reading that is not the id of a task, and draws of
  \<open>Date.now() + Math.random()\<close> that differ from each other and from the subtask ids of
  the task they are attached to.
\<close>

fun draws_fresh :: "operation \<Rightarrow> Task list \<Rightarrow> bool" where
  "draws_fresh (Add now txt) ts = (trim txt = [] \<or> of_int now \<notin> task_id ` set ts)"
| "draws_fresh (AttachSubtasks i gen steps) ts =
     (distinct (map gen [0..<length steps]) \<and>
      list_all (\<lambda>t. task_id t \<noteq> i \<or> set (map gen [0..<length steps]) \<inter> set (subtask_ids t) = {})
        ts)"
| "draws_fresh _ ts = True"

fun all_draws_fresh :: "operation list \<Rightarrow> Task list \<Rightarrow> bool" where
  "all_draws_fresh [] ts = True"
| "all_draws_fresh (x # xs) ts = (draws_fresh x ts \<and> all_draws_fresh xs (apply_operation x ts))"

section \<open>AI advisory client\<close>

text \<open>
  What \<open>fetch\<close> yields: a rejected promise, or a response with its \<open>ok\<close> flag and body.
  The prompt only decides what the remote service answers, so the handlers are given
  the outcome of the request.
\<close>

datatype fetch_result = NetworkError | Response bool jsstring

text \<open>
  Property access on a value that is neither \<open>null\<close> nor \<open>undefined\<close>; \<open>None\<close> is
  \<open>undefined\<close>. \<open>get_prop\<close> is used for the names \<open>candidates\<close>, \<open>content\<close>, \<open>parts\<close> and
  \<open>text\<close>, which only an object can have as a property; \<open>item0\<close> is \<open>[0]\<close>.
\<close>

definition get_prop :: "string \<Rightarrow> json \<Rightarrow> json option" where
  "get_prop name v = (case v of JObject ms \<Rightarrow> map_of (rev ms) (js name) | _ \<Rightarrow> None)"

definition item0 :: "json \<Rightarrow> json option" where
  "item0 v =
     (case v of
        JArray xs \<Rightarrow> (case xs of [] \<Rightarrow> None | x # _ \<Rightarrow> Some x)
      | JString s \<Rightarrow> (case s of [] \<Rightarrow> None | c # _ \<Rightarrow> Some (JString [c]))
      | JObject ms \<Rightarrow> map_of (rev ms) (js ''0'')
      | _ \<Rightarrow> None)"

text \<open>\<open>x?.p\<close>: \<open>undefined\<close> when \<open>x\<close> is \<open>null\<close> or \<open>undefined\<close>.\<close>

definition opt :: "(json \<Rightarrow> json option) \<Rightarrow> json option \<Rightarrow> json option" where
  "opt get x = (case x of None \<Rightarrow> None | Some JNull \<Rightarrow> None | Some v \<Rightarrow> get v)"

text \<open>
  Truthiness. A number is falsy when it is zero; a literal of magnitude at most
  \<open>2\<^sup>-\<^sup>1\<^sup>0\<^sup>7\<^sup>5\<close> reads as the double zero.
\<close>

definition truthy :: "json \<Rightarrow> bool" where
  "truthy v =
     (case v of
        JNull \<Rightarrow> False
      | JBool b \<Rightarrow> b
      | JNumber r \<Rightarrow> 1 < \<bar>r\<bar> * 2 ^ 1075
      | JString s \<Rightarrow> s \<noteq> []
      | JArray xs \<Rightarrow> True
      | JObject ms \<Rightarrow> True)"

text \<open>\<open>data.candidates?.[0]?.content?.parts?.[0]?.text || ''\<close>, for \<open>data\<close> not \<open>null\<close>.\<close>

definition answer_text :: "json \<Rightarrow> json option" where
  "answer_text data =
     opt (get_prop ''text'') (opt item0 (opt (get_prop ''parts'') (opt (get_prop ''content'')
       (opt item0 (get_prop ''candidates'' data)))))"

definition or_empty :: "json option \<Rightarrow> json" where
  "or_empty x = (case x of None \<Rightarrow> JString [] | Some v \<Rightarrow> if truthy v then v else JString [])"

text \<open>
  \<open>callGemini\<close>: the value returned (\<open>None\<close> is \<open>null\<close>) and what was reported.
  \<open>data.candidates\<close> on \<open>null\<close> throws a TypeError.
\<close>

definition gemini_error_report :: "js_error \<Rightarrow> effect list" where
  "gemini_error_report error =
     [ConsoleError ''Gemini API Error:'' error,
      Alert ''AI Error: Check console for details (likely API quota or key issue).'']"

definition callGemini :: "fetch_result \<Rightarrow> js_error + (json option \<times> effect list)" where
  "callGemini response =
     try_catch
       (case response of
          NetworkError \<Rightarrow> Inl TypeError
        | Response ok body \<Rightarrow>
            (if \<not> ok then Inl (Error ''AI Response failed'')
             else (case JSON_parse body of
                     None \<Rightarrow> Inl SyntaxError
                   | Some data \<Rightarrow>
                       (if data = JNull then Inl TypeError
                        else Inr (Some (or_empty (answer_text data)), [])))))
       (\<lambda>error. Inr (None, gemini_error_report error))"

text \<open>
  \<open>s.replace(/p/g, '')\<close> for a pattern \<open>p\<close> that is a fixed, non-empty sequence of code
  units: every occurrence, found from left to right, is removed.
\<close>

function remove_all :: "jsstring \<Rightarrow> jsstring \<Rightarrow> jsstring" where
  "remove_all pat s =
     (if pat = [] \<or> s = [] then s
      else if prefix pat s then remove_all pat (drop (length pat) s)
      else hd s # remove_all pat (tl s))"
  by pat_completeness auto
termination
  by (relation "measure (\<lambda>(pat, s). length s)") auto

text \<open>
  The state the two AI handlers read and write. \<open>tasks\<close> is the collection of the render
  in which the handler was created: the handler keeps it across the request.
\<close>

record app =
  tasks :: "Task list"
  loadingTaskId :: "number option"
  coachTip :: "json option"
  isCoachLoading :: bool
  effects :: "effect list"

definition cleanJson :: "jsstring \<Rightarrow> jsstring" where
  "cleanJson result = trim (remove_all (js ''```'') (remove_all (js ''```json'') result))"

text \<open>
  \<open>handleSmartBreakdown\<close> from the outcome of the request on: the state when the handler
  returns. \<open>setLoadingTaskId(taskId)\<close> before the request is undone by
  \<open>setLoadingTaskId(null)\<close> at the end. \<open>result.replace\<close> is not a function, and the call
  throws a TypeError, when \<open>result\<close> is not a string.
\<close>

definition parse_error_report :: "js_error \<Rightarrow> effect list" where
  "parse_error_report e =
     [ConsoleError ''Failed to parse AI response'' e,
      Alert ''Couldn't break down this task automatically. Try again!'']"

definition handleSmartBreakdown ::
  "number \<Rightarrow> fetch_result \<Rightarrow> (nat \<Rightarrow> number) \<Rightarrow> app \<Rightarrow> js_error + app" where
  "handleSmartBreakdown taskId response gen s =
     (case callGemini response of
        Inl e \<Rightarrow> Inl e
      | Inr (result, reported) \<Rightarrow>
          (case (if (case result of None \<Rightarrow> False | Some r \<Rightarrow> truthy r)
                 then try_catch
                        (case result of
                           Some (JString r) \<Rightarrow>
                             (case JSON_parse (cleanJson r) of
                                None \<Rightarrow> Inl SyntaxError
                              | Some steps \<Rightarrow>
                                  (case steps of
                                     JArray xs \<Rightarrow>
                                       Inr (s\<lparr>tasks := attachSubtasks taskId (newSubtasks gen xs) (tasks s),
                                              effects := effects s @ reported\<rparr>)
                                   | _ \<Rightarrow> Inr (s\<lparr>effects := effects s @ reported\<rparr>)))
                         | _ \<Rightarrow> Inl TypeError)
                        (\<lambda>e. Inr (s\<lparr>effects := effects s @ reported @ parse_error_report e\<rparr>))
                 else Inr (s\<lparr>effects := effects s @ reported\<rparr>)) of
             Inl e \<Rightarrow> Inl e
           | Inr s' \<Rightarrow> Inr (s'\<lparr>loadingTaskId := None\<rparr>)))"

definition getZenCoachTip :: "fetch_result \<Rightarrow> app \<Rightarrow> js_error + app" where
  "getZenCoachTip response s =
     (case callGemini response of
        Inl e \<Rightarrow> Inl e
      | Inr (tip, reported) \<Rightarrow>
          Inr (s\<lparr>coachTip := (if (case tip of None \<Rightarrow> False | Some r \<Rightarrow> truthy r)
                               then tip else coachTip s),
                 isCoachLoading := False,
                 effects := effects s @ reported\<rparr>))"

section \<open>Timer\<close>

text \<open>
  The timer is the three state variables \<open>timerMode\<close>, \<open>timeLeft\<close> and \<open>isActive\<close>, the
  effect on \<open>[isActive, timeLeft]\<close> and the handlers. An event is handled to its end (the
  state is set, the component renders, the cleanup and the effect run) before the next
  event begins.
\<close>

datatype timer_mode = Focus | Short | Long

fun MODES_time :: "timer_mode \<Rightarrow> int" where
  "MODES_time Focus = 25 * 60"
| "MODES_time Short = 5 * 60"
| "MODES_time Long = 15 * 60"

text \<open>
  The timer state of the component, with what the browser and React keep for it:
  \<open>timerRef\<close> is \<open>timerRef.current\<close>, \<open>pending\<close> the ids of the timeouts set and neither
  fired nor cleared, \<open>next_id\<close> the id the next \<open>setTimeout\<close> returns (ids are positive),
  \<open>effect_deps\<close> the values of \<open>[isActive, timeLeft]\<close> at the last run of the effect, and
  \<open>played\<close> counts the calls of \<open>playNotification\<close>.
\<close>

record timer =
  timerMode :: timer_mode
  timeLeft :: int
  isActive :: bool
  soundEnabled :: bool
  timerRef :: "nat option"
  pending :: "nat list"
  next_id :: nat
  effect_deps :: "bool \<times> int"
  played :: nat

text \<open>\<open>timerRef.current = window.setTimeout(() => setTimeLeft((prev) => prev - 1), 1000)\<close>\<close>

definition setTimeout :: "timer \<Rightarrow> timer" where
  "setTimeout s =
     s\<lparr>pending := pending s @ [next_id s], timerRef := Some (next_id s),
       next_id := Suc (next_id s)\<rparr>"

definition clearTimeout :: "nat \<Rightarrow> timer \<Rightarrow> timer" where
  "clearTimeout h s = s\<lparr>pending := removeAll h (pending s)\<rparr>"

text \<open>The body of the effect, and the cleanup it returns.\<close>

definition effect_body :: "timer \<Rightarrow> timer" where
  "effect_body s =
     (if isActive s \<and> 0 < timeLeft s then setTimeout s
      else if timeLeft s = 0
      then (if soundEnabled s then s\<lparr>isActive := False, played := Suc (played s)\<rparr>
            else s\<lparr>isActive := False\<rparr>)
      else s)"

definition cleanup :: "timer \<Rightarrow> timer" where
  "cleanup s = (case timerRef s of None \<Rightarrow> s | Some h \<Rightarrow> if h \<noteq> 0 then clearTimeout h s else s)"

text \<open>
  One render: when \<open>[isActive, timeLeft]\<close> differ from their values at the last run of
  the effect, React runs the cleanup and then the effect. The effect may set \<open>isActive\<close>,
  which asks for one more render; after two renders nothing changes any more
  (\<open>commit_stable\<close> below).
\<close>

definition commit :: "timer \<Rightarrow> timer" where
  "commit s =
     (if effect_deps s = (isActive s, timeLeft s) then s
      else effect_body ((cleanup s)\<lparr>effect_deps := (isActive s, timeLeft s)\<rparr>))"

definition render :: "timer \<Rightarrow> timer" where
  "render s = commit (commit s)"

text \<open>
  The component after mounting: the initial state, with the sound flag as loaded from
  storage, and the first run of the effect.
\<close>

definition mounted :: "bool \<Rightarrow> timer" where
  "mounted sound =
     effect_body \<lparr>timerMode = Focus, timeLeft = 25 * 60, isActive = False, soundEnabled = sound,
                  timerRef = None, pending = [], next_id = 1,
                  effect_deps = (False, 25 * 60), played = 0\<rparr>"

text \<open>The handlers: the state they set.\<close>

definition switchMode :: "timer_mode \<Rightarrow> timer \<Rightarrow> timer" where
  "switchMode m s = s\<lparr>isActive := False, timerMode := m, timeLeft := MODES_time m\<rparr>"

definition toggleTimer :: "timer \<Rightarrow> timer" where
  "toggleTimer s = s\<lparr>isActive := \<not> isActive s\<rparr>"

definition resetTimer :: "timer \<Rightarrow> timer" where
  "resetTimer s = s\<lparr>isActive := False, timeLeft := MODES_time (timerMode s)\<rparr>"

text \<open>
  The events of the timer: the three buttons, the sound button, and a timeout coming
  due, which runs \<open>setTimeLeft((prev) => prev - 1)\<close> if it is still pending. Each event
  is followed by the renders it causes.
\<close>

datatype event = SwitchMode timer_mode | ToggleTimer | ResetTimer | ToggleSound | Timeout nat

fun step :: "event \<Rightarrow> timer \<Rightarrow> timer" where
  "step (SwitchMode m) s = render (switchMode m s)"
| "step ToggleTimer s = render (toggleTimer s)"
| "step ResetTimer s = render (resetTimer s)"
| "step ToggleSound s = render (s\<lparr>soundEnabled := \<not> soundEnabled s\<rparr>)"
| "step (Timeout h) s =
     (if h \<in> set (pending s)
      then render (s\<lparr>pending := removeAll h (pending s), timeLeft := timeLeft s - 1\<rparr>)
      else s)"

text \<open>A sequence of events, handled one after another.\<close>

definition run :: "event list \<Rightarrow> timer \<Rightarrow> timer" where
  "run evs s = foldl (\<lambda>s e. step e s) s evs"

text \<open>One second passes: the oldest pending timeout, if any, comes due.\<close>

definition tick :: "timer \<Rightarrow> timer" where
  "tick s = (case pending s of [] \<Rightarrow> s | h # _ \<Rightarrow> step (Timeout h) s)"

text \<open>The states the mounted component can be in.\<close>

inductive reachable :: "timer \<Rightarrow> bool" where
  mounted: "reachable (mounted sound)"
| step: "reachable s \<Longrightarrow> reachable (step e s)"

text \<open>
  What holds between events: the effect has run for the current \<open>[isActive, timeLeft]\<close>;
  a running timer has time left and exactly one pending timeout, the one \<open>timerRef\<close>
  holds; a stopped timer has none.
\<close>

definition timer_ok :: "timer \<Rightarrow> bool" where
  "timer_ok s \<longleftrightarrow>
     0 \<le> timeLeft s \<and> effect_deps s = (isActive s, timeLeft s) \<and> 0 < next_id s \<and>
     (case timerRef s of None \<Rightarrow> True | Some h \<Rightarrow> 0 < h \<and> h < next_id s) \<and>
     (if isActive s then 0 < timeLeft s \<and> (case timerRef s of None \<Rightarrow> False | Some h \<Rightarrow> pending s = [h])
      else pending s = [])"

text \<open>
  The same after an event has set the state and before the renders it causes: the
  pending timeout, if any, is the one \<open>timerRef\<close> holds, and if the dependencies of the
  effect are as they were, nothing else has changed either.
\<close>

definition settled_but_deps :: "timer \<Rightarrow> bool" where
  "settled_but_deps s \<longleftrightarrow>
     0 \<le> timeLeft s \<and> 0 < next_id s \<and>
     (case timerRef s of None \<Rightarrow> pending s = []
      | Some h \<Rightarrow> 0 < h \<and> h < next_id s \<and> (pending s = [] \<or> pending s = [h])) \<and>
     (effect_deps s \<noteq> (isActive s, timeLeft s) \<or> timer_ok s)"

section \<open>Frame properties of the task handlers\<close>














section \<open>The durable store\<close>


lemma parse_null: "JSON_parse (js ''null'') = Some JNull"
  by code_simp

lemma parse_not_json: "JSON_parse (js ''not json'') = None"
  by code_simp

text \<open>
  Claim C1, as amended. The initialiser never throws: every error of its body reaches
  the handler, which returns. When no item is stored under the key, and when the stored
  item is the empty string, it returns the default and writes nothing to the console
  (the empty string is not given to \<open>JSON.parse\<close>). When a non-empty item does not
  parse, it writes the SyntaxError to the console and returns the default; when reading
  the storage throws, it writes that error to the console and returns the default. A
  non-empty item that parses is returned as parsed.
\<close>

theorem load_falls_back_to_default:
  "(\<exists>r. useLocalStorage_init st key d = Inr r) \<and>
   (getItem key st = Inr None \<longrightarrow> useLocalStorage_init st key d = Inr (d, [])) \<and>
   (getItem key st = Inr (Some []) \<longrightarrow> useLocalStorage_init st key d = Inr (d, [])) \<and>
   (\<forall>item. getItem key st = Inr (Some item) \<longrightarrow> item \<noteq> [] \<longrightarrow> JSON_parse item = None \<longrightarrow>
      useLocalStorage_init st key d = Inr (d, [ConsoleError [] SyntaxError])) \<and>
   (\<forall>item v. getItem key st = Inr (Some item) \<longrightarrow> item \<noteq> [] \<longrightarrow> JSON_parse item = Some v \<longrightarrow>
      useLocalStorage_init st key d = Inr (v, [])) \<and>
   (\<forall>e. getItem key st = Inl e \<longrightarrow> useLocalStorage_init st key d = Inr (d, [ConsoleError [] e]))"
  by (auto simp: useLocalStorage_init_def try_catch_def split: sum.splits option.splits)

theorem load_falls_back_to_default_witness:
  "useLocalStorage_init \<lparr>items = [], denied = False, quota = 5000000\<rparr>
     (js ''zenfocus-tasks'') (JArray []) = Inr (JArray [], []) \<and>
   useLocalStorage_init
     \<lparr>items = [(js ''zenfocus-tasks'', js ''not json'')], denied = False, quota = 5000000\<rparr>
     (js ''zenfocus-tasks'') (JArray []) = Inr (JArray [], [ConsoleError [] SyntaxError]) \<and>
   useLocalStorage_init \<lparr>items = [], denied = True, quota = 5000000\<rparr>
     (js ''zenfocus-tasks'') (JArray []) = Inr (JArray [], [ConsoleError [] SecurityError])"
  using
    load_falls_back_to_default [of "\<lparr>items = [], denied = False, quota = 5000000\<rparr>"
      "js ''zenfocus-tasks''" "JArray []"]
    load_falls_back_to_default [of
      "\<lparr>items = [(js ''zenfocus-tasks'', js ''not json'')], denied = False, quota = 5000000\<rparr>"
      "js ''zenfocus-tasks''" "JArray []"]
    load_falls_back_to_default [of "\<lparr>items = [], denied = True, quota = 5000000\<rparr>"
      "js ''zenfocus-tasks''" "JArray []"]
  by (simp add: getItem_def parse_not_json) (simp add: js_def)

text \<open>
  The claim as written fails for a stored empty string: the item is present and is not
  JSON, the default is returned, and nothing is logged.
\<close>

theorem load_empty_item_not_logged:
  "getItem (js ''zenfocus-tasks'')
     \<lparr>items = [(js ''zenfocus-tasks'', [])], denied = False, quota = 5000000\<rparr> = Inr (Some []) \<and>
   JSON_parse [] = None \<and>
   useLocalStorage_init \<lparr>items = [(js ''zenfocus-tasks'', [])], denied = False, quota = 5000000\<rparr>
     (js ''zenfocus-tasks'') (JArray []) = Inr (JArray [], [])"
  by (simp add: getItem_def useLocalStorage_init_def try_catch_def JSON_parse_def)




text \<open>
  Claim C9. \<open>setValue\<close> never throws and always leaves the new value in memory. When the
  write to storage throws, the error is written to the console, the storage is as it
  was, and the stored value is the new one; when the write succeeds, the storage holds
  the result of the write.
\<close>

theorem setValue_swallows_write_failure:
  "(\<exists>h'. setValue stringify key v h = Inr h' \<and> storedValue h' = v) \<and>
   (\<forall>e. setItem key (stringify v) (localStorage h) = Inl e \<longrightarrow>
      setValue stringify key v h =
        Inr (h\<lparr>storedValue := v, console := console h @ [ConsoleError [] e]\<rparr>)) \<and>
   (\<forall>st. setItem key (stringify v) (localStorage h) = Inr st \<longrightarrow>
      setValue stringify key v h = Inr (h\<lparr>storedValue := v, localStorage := st\<rparr>))"
  by (auto simp: setValue_def try_catch_def split: sum.splits)

theorem setValue_swallows_write_failure_witness:
  "setItem (js ''zenfocus-sound'') (js ''false'') \<lparr>items = [], denied = False, quota = 10\<rparr> =
     Inl QuotaExceededError \<and>
   setValue (\<lambda>b. if b then js ''true'' else js ''false'') (js ''zenfocus-sound'') False
     \<lparr>storedValue = True, localStorage = \<lparr>items = [], denied = False, quota = 10\<rparr>, console = []\<rparr> =
   Inr \<lparr>storedValue = False, localStorage = \<lparr>items = [], denied = False, quota = 10\<rparr>,
        console = [ConsoleError [] QuotaExceededError]\<rparr>"
  using setValue_swallows_write_failure [of "\<lambda>b. if b then js ''true'' else js ''false''"
      "js ''zenfocus-sound''" False
      "\<lparr>storedValue = True, localStorage = \<lparr>items = [], denied = False, quota = 10\<rparr>,
        console = []\<rparr>"]
  by (simp add: setItem_def usage_def js_def)

section \<open>Adding tasks\<close>

lemma trim_empty_iff: "trim s = [] \<longleftrightarrow> (\<forall>c\<in>set s. is_white_space c)"
proof
  assume "trim s = []"
  then have a: "\<forall>c\<in>set (dropWhile is_white_space s). is_white_space c"
    by (simp add: trim_def)
  have "dropWhile is_white_space s = []"
  proof (rule ccontr)
    assume n: "dropWhile is_white_space s \<noteq> []"
    then have "\<not> is_white_space (hd (dropWhile is_white_space s))"
      by (rule hd_dropWhile)
    moreover have "hd (dropWhile is_white_space s) \<in> set (dropWhile is_white_space s)"
      using n by simp
    ultimately show False using a by blast
  qed
  then show "\<forall>c\<in>set s. is_white_space c"
    by simp
next
  assume "\<forall>c\<in>set s. is_white_space c"
  then show "trim s = []"
    by (auto simp: trim_def dest: set_dropWhileD)
qed

lemma trim_letter: "trim (js ''a'') \<noteq> [] \<and> trim (js ''b'') \<noteq> []"
  by (simp add: trim_empty_iff) (simp add: js_def ch_def is_white_space_def)

text \<open>
  Claim C5, as amended. The trimmed input is empty exactly when every code unit of the
  input is white space (the empty input included); then \<open>addTask\<close> returns without
  setting anything, and the collection and the input field are as they were. Otherwise
  the new collection is the old one followed by one task, whose id is the clock reading
  \<open>Date.now()\<close>, whose text is the input as typed, which is not completed, has an empty
  subtask list and is not expanded; the input field is cleared. The id is the clock
  reading whether or not a task already has it: in a collection of distinct ids the
  result has distinct ids exactly when no task has the clock reading as its id.
\<close>

theorem addTask_appends_task:
  "(trim newTask = [] \<longleftrightarrow> (\<forall>c\<in>set newTask. is_white_space c)) \<and>
   (trim newTask = [] \<longrightarrow> addTask now newTask ts = (ts, newTask)) \<and>
   (trim newTask \<noteq> [] \<longrightarrow>
      addTask now newTask ts =
        (ts @ [\<lparr>task_id = of_int now, task_text = newTask, task_completed = False,
                 subtasks = Some [], isExpanded = Some False\<rparr>], [])) \<and>
   (trim newTask \<noteq> [] \<longrightarrow> distinct (map task_id ts) \<longrightarrow>
      (distinct (map task_id (fst (addTask now newTask ts))) \<longleftrightarrow> of_int now \<notin> task_id ` set ts))"
  using trim_empty_iff [of newTask] by (auto simp: addTask_def)

theorem addTask_appends_task_witness:
  "addTask 1700000000000 [0x20, 0x9]
     [\<lparr>task_id = 1690000000000, task_text = js ''a'', task_completed = True,
        subtasks = None, isExpanded = None\<rparr>] =
     ([\<lparr>task_id = 1690000000000, task_text = js ''a'', task_completed = True,
         subtasks = None, isExpanded = None\<rparr>], [0x20, 0x9]) \<and>
   addTask 1700000000000 (js ''b'')
     [\<lparr>task_id = 1690000000000, task_text = js ''a'', task_completed = True,
        subtasks = None, isExpanded = None\<rparr>] =
     ([\<lparr>task_id = 1690000000000, task_text = js ''a'', task_completed = True,
         subtasks = None, isExpanded = None\<rparr>,
       \<lparr>task_id = 1700000000000, task_text = js ''b'', task_completed = False,
         subtasks = Some [], isExpanded = Some False\<rparr>], [])"
  using
    addTask_appends_task [of "[0x20, 0x9]" 1700000000000
      "[\<lparr>task_id = 1690000000000, task_text = js ''a'', task_completed = True,
         subtasks = None, isExpanded = None\<rparr>]"]
    addTask_appends_task [of "js ''b''" 1700000000000
      "[\<lparr>task_id = 1690000000000, task_text = js ''a'', task_completed = True,
         subtasks = None, isExpanded = None\<rparr>]"]
    trim_letter
  by (simp add: is_white_space_def)

text \<open>
  The claim as written fails when a task already has the clock reading as its id: the
  task that is appended has the id of the task before it.
\<close>

theorem addTask_id_not_fresh:
  "trim (js ''b'') \<noteq> [] \<and>
   addTask 1700000000000 (js ''b'')
     [\<lparr>task_id = 1700000000000, task_text = js ''a'', task_completed = False,
        subtasks = Some [], isExpanded = Some False\<rparr>] =
     ([\<lparr>task_id = 1700000000000, task_text = js ''a'', task_completed = False,
         subtasks = Some [], isExpanded = Some False\<rparr>,
       \<lparr>task_id = 1700000000000, task_text = js ''b'', task_completed = False,
         subtasks = Some [], isExpanded = Some False\<rparr>], [])"
  using trim_letter by (simp add: addTask_def)

section \<open>Uniqueness of ids\<close>

lemma map_task_id_toggleTask: "map task_id (toggleTask i ts) = map task_id ts"
  by (simp add: toggleTask_def comp_def)

lemma map_subtask_ids_toggleTask: "map subtask_ids (toggleTask i ts) = map subtask_ids ts"
  by (simp add: toggleTask_def comp_def subtask_ids_def)

lemma map_task_id_toggleExpand: "map task_id (toggleExpand i ts) = map task_id ts"
  by (simp add: toggleExpand_def comp_def)

lemma map_subtask_ids_toggleExpand: "map subtask_ids (toggleExpand i ts) = map subtask_ids ts"
  by (simp add: toggleExpand_def comp_def subtask_ids_def)

lemma map_task_id_toggleSubtask: "map task_id (toggleSubtask i j ts) = map task_id ts"
  by (simp add: toggleSubtask_def comp_def)

lemma map_subtask_ids_toggleSubtask: "map subtask_ids (toggleSubtask i j ts) = map subtask_ids ts"
  by (induction ts) (auto simp: toggleSubtask_def subtask_ids_def comp_def split: option.splits)

lemma map_task_id_attachSubtasks: "map task_id (attachSubtasks i new ts) = map task_id ts"
  by (simp add: attachSubtasks_def comp_def)

lemma ids_unique_alt:
  "ids_unique ts \<longleftrightarrow> distinct (map task_id ts) \<and> (\<forall>ids\<in>set (map subtask_ids ts). distinct ids)"
  by (auto simp: ids_unique_def list_all_iff)

lemma subtask_id_newSubtasks: "map subtask_id (newSubtasks gen steps) = map gen [0..<length steps]"
proof -
  have "map subtask_id (newSubtasks gen steps) = map (gen \<circ> fst) (enumerate 0 steps)"
    by (simp add: newSubtasks_def comp_def case_prod_unfold)
  also have "\<dots> = map gen (map fst (enumerate 0 steps))"
    by (simp only: map_map)
  also have "\<dots> = map gen [0..<length steps]"
    by (simp only: map_fst_enumerate add_0)
  finally show ?thesis .
qed

lemma attach_task_distinct:
  "distinct (subtask_ids t) \<Longrightarrow> distinct (map subtask_id new) \<Longrightarrow>
   set (map subtask_id new) \<inter> set (subtask_ids t) = {} \<Longrightarrow>
   distinct (subtask_ids (t\<lparr>subtasks := Some ((case subtasks t of None \<Rightarrow> [] | Some sts \<Rightarrow> sts) @ new),
                            isExpanded := Some True\<rparr>))"
  by (cases "subtasks t") (auto simp: subtask_ids_def)

lemma ids_unique_step: "ids_unique ts \<Longrightarrow> draws_fresh opn ts \<Longrightarrow> ids_unique (apply_operation opn ts)"
proof (cases opn)
  case (Add now str)
  assume "ids_unique ts" "draws_fresh opn ts"
  with Add show ?thesis
    by (auto simp: ids_unique_def addTask_def subtask_ids_def)
next
  case (ToggleCompleted i)
  assume "ids_unique ts"
  with ToggleCompleted show ?thesis
    by (simp add: ids_unique_alt map_task_id_toggleTask map_subtask_ids_toggleTask)
next
  case (ToggleSubtaskCompleted i j)
  assume "ids_unique ts"
  with ToggleSubtaskCompleted show ?thesis
    by (simp add: ids_unique_alt map_task_id_toggleSubtask map_subtask_ids_toggleSubtask)
next
  case (Remove i)
  assume "ids_unique ts"
  with Remove show ?thesis
    by (auto simp: ids_unique_def deleteTask_def distinct_map_filter list_all_iff)
next
  case (ToggleExpanded i)
  assume "ids_unique ts"
  with ToggleExpanded show ?thesis
    by (simp add: ids_unique_alt map_task_id_toggleExpand map_subtask_ids_toggleExpand)
next
  case (AttachSubtasks i gen steps)
  assume u: "ids_unique ts" and f: "draws_fresh opn ts"
  have "distinct (subtask_ids t')" if t': "t' \<in> set (attachSubtasks i (newSubtasks gen steps) ts)" for t'
  proof -
    from t' obtain t where t: "t \<in> set ts" and eq:
      "t' = (if task_id t = i
             then t\<lparr>subtasks := Some ((case subtasks t of None \<Rightarrow> [] | Some sts \<Rightarrow> sts) @
                                       newSubtasks gen steps),
                    isExpanded := Some True\<rparr>
             else t)"
      by (auto simp: attachSubtasks_def)
    from u t have d: "distinct (subtask_ids t)"
      by (simp add: ids_unique_def list_all_iff)
    show ?thesis
    proof (cases "task_id t = i")
      case True
      with f AttachSubtasks t
      have "distinct (map gen [0..<length steps])"
        and "set (map gen [0..<length steps]) \<inter> set (subtask_ids t) = {}"
        by (auto simp: list_all_iff)
      with d have "distinct (subtask_ids (t\<lparr>subtasks :=
          Some ((case subtasks t of None \<Rightarrow> [] | Some sts \<Rightarrow> sts) @ newSubtasks gen steps),
          isExpanded := Some True\<rparr>))"
        by (intro attach_task_distinct) (simp_all add: subtask_id_newSubtasks)
      with True eq show ?thesis by simp
    next
      case False
      with d eq show ?thesis by simp
    qed
  qed
  then have "list_all (\<lambda>t. distinct (subtask_ids t)) (attachSubtasks i (newSubtasks gen steps) ts)"
    by (simp add: list_all_iff)
  with u AttachSubtasks show ?thesis
    by (simp add: ids_unique_def map_task_id_attachSubtasks)
qed

lemma ids_unique_run:
  "ids_unique ts \<Longrightarrow> all_draws_fresh xs ts \<Longrightarrow> ids_unique (run_operations xs ts)"
  by (induction xs arbitrary: ts) (simp_all add: ids_unique_step)

text \<open>
  Claim C7, as amended. Start from the empty collection and apply any sequence of
  operations. If every clock reading used by an add that creates a task differs from the
  ids of the tasks then present, and the draws of \<open>Date.now() + Math.random()\<close> of every
  attachment differ from each other and from the subtask ids of the task they are
  attached to, then task ids are distinct across the collection and subtask ids are
  distinct within each task. The code takes the ids from the clock and the random
  generator as they come and compares them with nothing.
\<close>

theorem ids_unique_when_draws_fresh:
  "all_draws_fresh ops [] \<Longrightarrow> ids_unique (run_operations ops [])"
  by (rule ids_unique_run) (simp_all add: ids_unique_def)

theorem ids_unique_when_draws_fresh_witness:
  "all_draws_fresh
     [Add 1700000000000 (js ''a''), Add 1700000000001 (js ''b''),
      AttachSubtasks 1700000000000 of_nat [JString (js ''a''), JString (js ''b'')],
      ToggleSubtaskCompleted 1700000000000 1, Remove 1700000000001] [] \<and>
   ids_unique (run_operations
     [Add 1700000000000 (js ''a''), Add 1700000000001 (js ''b''),
      AttachSubtasks 1700000000000 of_nat [JString (js ''a''), JString (js ''b'')],
      ToggleSubtaskCompleted 1700000000000 1, Remove 1700000000001] [])"
proof -
  have fresh: "all_draws_fresh
     [Add 1700000000000 (js ''a''), Add 1700000000001 (js ''b''),
      AttachSubtasks 1700000000000 of_nat [JString (js ''a''), JString (js ''b'')],
      ToggleSubtaskCompleted 1700000000000 1, Remove 1700000000001] []"
    using trim_letter
    by (simp add: addTask_def attachSubtasks_def newSubtasks_def subtask_ids_def upt_rec)
  from ids_unique_when_draws_fresh [OF fresh] fresh show ?thesis
    by simp
qed

text \<open>
  The claim as written fails: two adds that read the same clock value give two tasks
  with one id.
\<close>

theorem task_ids_repeat:
  "\<not> ids_unique (run_operations
       [Add 1700000000000 (js ''a''), Add 1700000000000 (js ''b'')] [])"
  using trim_letter by (simp add: ids_unique_def addTask_def)

text \<open>
  Likewise two draws of \<open>Date.now() + Math.random()\<close> that give the same double give two
  subtasks of one task the same id.
\<close>

lemma subtask_ids_repeat:
  "\<not> ids_unique (run_operations
       [Add 1700000000000 (js ''a''),
        AttachSubtasks 1700000000000 (\<lambda>k. 1700000000001 + 1 / 4096)
          [JString (js ''a''), JString (js ''b'')]] [])"
  using trim_letter
  by (simp add: ids_unique_def addTask_def attachSubtasks_def newSubtasks_def subtask_ids_def)

section \<open>The AI advisory client\<close>

lemma js_nonempty [simp]: "js (c # cs) \<noteq> []"
  by (simp add: js_def)

lemma callGemini_cases:
  "(\<exists>r. callGemini response = Inr r) \<and>
   (response = NetworkError \<longrightarrow> callGemini response = Inr (None, gemini_error_report TypeError)) \<and>
   (\<forall>body. response = Response False body \<longrightarrow>
      callGemini response = Inr (None, gemini_error_report (Error ''AI Response failed''))) \<and>
   (\<forall>body. response = Response True body \<longrightarrow> JSON_parse body = None \<longrightarrow>
      callGemini response = Inr (None, gemini_error_report SyntaxError)) \<and>
   (\<forall>body. response = Response True body \<longrightarrow> JSON_parse body = Some JNull \<longrightarrow>
      callGemini response = Inr (None, gemini_error_report TypeError)) \<and>
   (\<forall>body data. response = Response True body \<longrightarrow> JSON_parse body = Some data \<longrightarrow> data \<noteq> JNull \<longrightarrow>
      callGemini response = Inr (Some (or_empty (answer_text data)), []))"
  by (auto simp: callGemini_def try_catch_def split: fetch_result.splits option.splits)





lemma handle_not_string:
  "callGemini response = Inr (Some v, fx) \<Longrightarrow> truthy v \<Longrightarrow> (\<forall>r. v \<noteq> JString r) \<Longrightarrow>
   handleSmartBreakdown taskId response gen s =
     Inr (s\<lparr>effects := effects s @ fx @ parse_error_report TypeError, loadingTaskId := None\<rparr>)"
  by (cases v) (simp_all add: handleSmartBreakdown_def try_catch_def)

lemma handle_empty:
  "callGemini response = Inr (Some (JString []), fx) \<Longrightarrow>
   handleSmartBreakdown taskId response gen s =
     Inr (s\<lparr>effects := effects s @ fx, loadingTaskId := None\<rparr>)"
  by (simp add: handleSmartBreakdown_def truthy_def)










lemma answer_text_envelope:
  "answer_text (JObject [(js ''candidates'', JArray [JObject [(js ''content'',
     JObject [(js ''parts'', JArray [JObject [(js ''text'', JString r)]])])]])]) = Some (JString r)"
  by (simp add: answer_text_def get_prop_def item0_def opt_def)





lemma parse_empty_object: "JSON_parse (js ''{}'') = Some (JObject [])"
  by code_simp

text \<open>
  An answer that parses to a value that is not an array changes nothing and is not
  reported: \<open>if (Array.isArray(steps))\<close> has no other branch.
\<close>

theorem breakdown_ignores_non_array:
  "callGemini response = Inr (Some (JString r), fx) \<Longrightarrow> r \<noteq> [] \<Longrightarrow>
   JSON_parse (cleanJson r) = Some v \<Longrightarrow> (\<forall>xs. v \<noteq> JArray xs) \<Longrightarrow>
   handleSmartBreakdown taskId response gen s =
     Inr (s\<lparr>effects := effects s @ fx, loadingTaskId := None\<rparr>)"
  by (cases v) (simp_all add: handleSmartBreakdown_def try_catch_def truthy_def)

lemma parse_envelope_object:
  "JSON_parse (js ''{\"candidates\":[{\"content\":{\"parts\":[{\"text\":\"{}\"}]}}]}'') =
   Some (JObject [(js ''candidates'', JArray [JObject [(js ''content'',
     JObject [(js ''parts'', JArray [JObject [(js ''text'', JString (js ''{}''))]])])]])])"
  by code_simp

lemma clean_object: "cleanJson (js ''{}'') = js ''{}''"
  by code_simp

theorem breakdown_ignores_non_array_witness:
  "handleSmartBreakdown 1
     (Response True (js ''{\"candidates\":[{\"content\":{\"parts\":[{\"text\":\"{}\"}]}}]}''))
     of_nat
     \<lparr>tasks = [], loadingTaskId = Some 1, coachTip = None, isCoachLoading = False, effects = []\<rparr> =
   Inr \<lparr>tasks = [], loadingTaskId = None, coachTip = None, isCoachLoading = False, effects = []\<rparr>"
proof -
  have c: "callGemini
      (Response True (js ''{\"candidates\":[{\"content\":{\"parts\":[{\"text\":\"{}\"}]}}]}'')) =
      Inr (Some (JString (js ''{}'')), [])"
    by (simp add: callGemini_def try_catch_def parse_envelope_object answer_text_envelope
          or_empty_def truthy_def)
  have p: "JSON_parse (cleanJson (js ''{}'')) = Some (JObject [])"
    by (simp add: clean_object parse_empty_object)
  show ?thesis
    using breakdown_ignores_non_array [OF c _ p, of 1 of_nat
      "\<lparr>tasks = [], loadingTaskId = Some 1, coachTip = None, isCoachLoading = False,
        effects = []\<rparr>"]
    by simp
qed

lemma tip_cases:
  "(\<exists>s'. getZenCoachTip response s = Inr s') \<and>
   (\<forall>fx. callGemini response = Inr (Some (JString []), fx) \<longrightarrow>
      getZenCoachTip response s = Inr (s\<lparr>isCoachLoading := False, effects := effects s @ fx\<rparr>)) \<and>
   (\<forall>fx. callGemini response = Inr (None, fx) \<longrightarrow>
      getZenCoachTip response s = Inr (s\<lparr>isCoachLoading := False, effects := effects s @ fx\<rparr>)) \<and>
   (\<forall>v fx. callGemini response = Inr (Some v, fx) \<longrightarrow> truthy v \<longrightarrow>
      getZenCoachTip response s =
        Inr (s\<lparr>coachTip := Some v, isCoachLoading := False, effects := effects s @ fx\<rparr>))"
  using callGemini_cases [of response]
  by (auto simp: getZenCoachTip_def truthy_def split: sum.splits prod.splits)

text \<open>
  Claim C10, as amended. When the response is \<open>ok\<close>, its body parses to a value other
  than \<open>null\<close>, and the chain \<open>candidates?.[0]?.content?.parts?.[0]?.text\<close> is undefined
  on it, \<open>callGemini\<close> returns the empty string and reports nothing; the breakdown
  handler then leaves the tasks and the reports as they were, and the coaching-tip
  handler leaves the tip and the reports as they were.
\<close>

theorem missing_fields_give_empty_answer:
  "JSON_parse body = Some data \<Longrightarrow> data \<noteq> JNull \<Longrightarrow> answer_text data = None \<Longrightarrow>
   callGemini (Response True body) = Inr (Some (JString []), []) \<and>
   handleSmartBreakdown taskId (Response True body) gen s = Inr (s\<lparr>loadingTaskId := None\<rparr>) \<and>
   getZenCoachTip (Response True body) s = Inr (s\<lparr>isCoachLoading := False\<rparr>) \<and>
   tasks (s\<lparr>loadingTaskId := None\<rparr>) = tasks s \<and>
   effects (s\<lparr>loadingTaskId := None\<rparr>) = effects s \<and>
   coachTip (s\<lparr>isCoachLoading := False\<rparr>) = coachTip s \<and>
   effects (s\<lparr>isCoachLoading := False\<rparr>) = effects s"
proof -
  assume p: "JSON_parse body = Some data" and n: "data \<noteq> JNull" and a: "answer_text data = None"
  have c: "callGemini (Response True body) = Inr (Some (JString []), [])"
    using callGemini_cases [of "Response True body"] p n a by (simp add: or_empty_def)
  show ?thesis
    using c handle_empty [OF c, of taskId gen s] tip_cases [of "Response True body" s]
    by simp
qed

theorem missing_fields_give_empty_answer_witness:
  "JSON_parse (js ''{}'') = Some (JObject []) \<and> answer_text (JObject []) = None \<and>
   callGemini (Response True (js ''{}'')) = Inr (Some (JString []), []) \<and>
   handleSmartBreakdown 1 (Response True (js ''{}'')) of_nat
     \<lparr>tasks = [\<lparr>task_id = 1, task_text = js ''Write report'', task_completed = False,
                 subtasks = Some [], isExpanded = Some False\<rparr>],
       loadingTaskId = Some 1, coachTip = Some (JString (js ''Begin'')), isCoachLoading = True,
       effects = []\<rparr> =
   Inr \<lparr>tasks = [\<lparr>task_id = 1, task_text = js ''Write report'', task_completed = False,
                 subtasks = Some [], isExpanded = Some False\<rparr>],
        loadingTaskId = None, coachTip = Some (JString (js ''Begin'')), isCoachLoading = True,
        effects = []\<rparr> \<and>
   getZenCoachTip (Response True (js ''{}''))
     \<lparr>tasks = [\<lparr>task_id = 1, task_text = js ''Write report'', task_completed = False,
                 subtasks = Some [], isExpanded = Some False\<rparr>],
       loadingTaskId = Some 1, coachTip = Some (JString (js ''Begin'')), isCoachLoading = True,
       effects = []\<rparr> =
   Inr \<lparr>tasks = [\<lparr>task_id = 1, task_text = js ''Write report'', task_completed = False,
                 subtasks = Some [], isExpanded = Some False\<rparr>],
        loadingTaskId = Some 1, coachTip = Some (JString (js ''Begin'')), isCoachLoading = False,
        effects = []\<rparr>"
proof -
  have a: "answer_text (JObject []) = None"
    by (simp add: answer_text_def get_prop_def opt_def)
  have n: "JObject [] \<noteq> JNull"
    by simp
  show ?thesis
    using missing_fields_give_empty_answer [OF parse_empty_object n a, of 1 of_nat
      "\<lparr>tasks = [\<lparr>task_id = 1, task_text = js ''Write report'', task_completed = False,
                 subtasks = Some [], isExpanded = Some False\<rparr>],
       loadingTaskId = Some 1, coachTip = Some (JString (js ''Begin'')), isCoachLoading = True,
       effects = []\<rparr>"] a parse_empty_object
    by simp
qed

text \<open>
  The claim as written fails for the body \<open>null\<close>, which has none of the fields:
  \<open>data.candidates\<close> throws, and \<open>callGemini\<close> returns \<open>null\<close> and raises the alert.
\<close>

theorem null_body_is_reported:
  "JSON_parse (js ''null'') = Some JNull \<and>
   callGemini (Response True (js ''null'')) = Inr (None, gemini_error_report TypeError) \<and>
   gemini_error_report TypeError =
     [ConsoleError ''Gemini API Error:'' TypeError,
      Alert ''AI Error: Check console for details (likely API quota or key issue).'']"
  by (simp add: callGemini_def try_catch_def parse_null gemini_error_report_def)

section \<open>The timer\<close>

lemma cleanup_fields [simp]:
  "isActive (cleanup s) = isActive s" "timeLeft (cleanup s) = timeLeft s"
  "soundEnabled (cleanup s) = soundEnabled s" "timerMode (cleanup s) = timerMode s"
  "timerRef (cleanup s) = timerRef s" "next_id (cleanup s) = next_id s"
  "effect_deps (cleanup s) = effect_deps s" "played (cleanup s) = played s"
  by (simp_all add: cleanup_def clearTimeout_def split: option.splits)

lemma pending_cleanup:
  "pending (cleanup s) =
     (case timerRef s of None \<Rightarrow> pending s
      | Some h \<Rightarrow> if h \<noteq> 0 then removeAll h (pending s) else pending s)"
  by (simp add: cleanup_def clearTimeout_def split: option.splits)

lemma mounted_ok: "timer_ok (mounted sound)"
  by (simp add: mounted_def timer_ok_def effect_body_def)

lemma commit_same: "effect_deps s = (isActive s, timeLeft s) \<Longrightarrow> commit s = s"
  by (simp add: commit_def)

lemma commit_fields:
  "timerMode (commit s) = timerMode s" "timeLeft (commit s) = timeLeft s"
  "soundEnabled (commit s) = soundEnabled s"
  by (simp_all add: commit_def effect_body_def setTimeout_def)

lemma commit_stable: "commit (commit (commit s)) = commit (commit s)"
proof (cases "effect_deps s = (isActive s, timeLeft s)")
  case True
  then show ?thesis by (simp add: commit_same)
next
  case False
  show ?thesis
  proof (cases "isActive s \<and> 0 < timeLeft s")
    case True
    with False have "effect_deps (commit s) = (isActive (commit s), timeLeft (commit s))"
      by (simp add: commit_def effect_body_def setTimeout_def)
    then show ?thesis by (simp add: commit_same)
  next
    case idle: False
    show ?thesis
    proof (cases "timeLeft s = 0")
      case True
      with False idle have "effect_deps (commit (commit s)) =
          (isActive (commit (commit s)), timeLeft (commit (commit s)))"
        by (auto simp: commit_def effect_body_def)
      then show ?thesis by (simp add: commit_same)
    next
      case nz: False
      with False idle have "effect_deps (commit s) = (isActive (commit s), timeLeft (commit s))"
        by (auto simp: commit_def effect_body_def)
      then show ?thesis by (simp add: commit_same)
    qed
  qed
qed

lemma render_ok: "settled_but_deps s \<Longrightarrow> timer_ok (render s)"
proof (cases "effect_deps s = (isActive s, timeLeft s)")
  case True
  assume "settled_but_deps s"
  with True show ?thesis
    by (simp add: render_def commit_same settled_but_deps_def)
next
  case False
  assume p: "settled_but_deps s"
  then have pc: "pending (cleanup s) = []"
    by (auto simp: settled_but_deps_def pending_cleanup split: option.splits)
  from p have b: "0 \<le> timeLeft s" "0 < next_id s"
      "case timerRef s of None \<Rightarrow> True | Some h \<Rightarrow> 0 < h \<and> h < next_id s"
    by (auto simp: settled_but_deps_def split: option.splits)
  show ?thesis
  proof (cases "isActive s \<and> 0 < timeLeft s")
    case True
    with False pc b have "timer_ok (commit s)"
      by (auto simp: commit_def effect_body_def setTimeout_def timer_ok_def split: option.splits)
    then show ?thesis
      by (simp add: render_def commit_same timer_ok_def)
  next
    case idle: False
    show ?thesis
    proof (cases "timeLeft s = 0")
      case True
      with False idle pc b have "timer_ok (commit (commit s))"
        by (auto simp: commit_def effect_body_def timer_ok_def pending_cleanup split: option.splits)
      then show ?thesis by (simp add: render_def)
    next
      case nz: False
      with False idle pc b have "timer_ok (commit s)"
        by (auto simp: commit_def effect_body_def timer_ok_def split: option.splits)
      then show ?thesis
        by (simp add: render_def commit_same timer_ok_def)
    qed
  qed
qed

lemma step_ok: "timer_ok s \<Longrightarrow> timer_ok (step e s)"
proof (cases e)
  case (SwitchMode m)
  assume "timer_ok s"
  then have "settled_but_deps (switchMode m s)"
    by (cases m) (auto simp: timer_ok_def settled_but_deps_def switchMode_def split: option.splits if_splits)
  with SwitchMode show ?thesis by (simp add: render_ok)
next
  case ToggleTimer
  assume "timer_ok s"
  then have "settled_but_deps (toggleTimer s)"
    by (auto simp: timer_ok_def settled_but_deps_def toggleTimer_def split: option.splits if_splits)
  with ToggleTimer show ?thesis by (simp add: render_ok)
next
  case ResetTimer
  assume "timer_ok s"
  then have "settled_but_deps (resetTimer s)"
    by (cases "timerMode s")
       (auto simp: timer_ok_def settled_but_deps_def resetTimer_def split: option.splits if_splits)
  with ResetTimer show ?thesis by (simp add: render_ok)
next
  case ToggleSound
  assume "timer_ok s"
  then have "settled_but_deps (s\<lparr>soundEnabled := \<not> soundEnabled s\<rparr>)"
    by (auto simp: timer_ok_def settled_but_deps_def split: option.splits if_splits)
  with ToggleSound show ?thesis by (simp add: render_ok)
next
  case (Timeout h)
  assume ok: "timer_ok s"
  show ?thesis
  proof (cases "h \<in> set (pending s)")
    case True
    with ok have "settled_but_deps (s\<lparr>pending := removeAll h (pending s), timeLeft := timeLeft s - 1\<rparr>)"
      by (auto simp: timer_ok_def settled_but_deps_def split: option.splits if_splits)
    with Timeout True show ?thesis by (simp add: render_ok)
  next
    case False
    with Timeout ok show ?thesis by simp
  qed
qed

lemma reachable_ok: "reachable s \<Longrightarrow> timer_ok s"
  by (induction rule: reachable.induct) (simp_all add: mounted_ok step_ok)

lemma render_fields:
  "timerMode (render s) = timerMode s" "timeLeft (render s) = timeLeft s"
  "soundEnabled (render s) = soundEnabled s"
  by (simp_all add: render_def commit_fields)

lemma commit_isActive: "isActive (commit s) \<Longrightarrow> isActive s"
  by (auto simp: commit_def effect_body_def setTimeout_def split: if_splits)

lemma render_isActive: "isActive (render s) \<Longrightarrow> isActive s"
  by (auto simp: render_def dest: commit_isActive)

lemma step_timeout_absent: "h \<notin> set (pending s) \<Longrightarrow> step (Timeout h) s = s"
  by simp

lemma step_timeout_present:
  assumes "timer_ok s" "h \<in> set (pending s)"
  shows "isActive s \<and> 0 < timeLeft s \<and> pending s = [h] \<and>
         timeLeft (step (Timeout h) s) = timeLeft s - 1 \<and>
         timerMode (step (Timeout h) s) = timerMode s \<and>
         soundEnabled (step (Timeout h) s) = soundEnabled s"
proof -
  from assms have "isActive s \<and> 0 < timeLeft s \<and> pending s = [h]"
    by (auto simp: timer_ok_def split: if_splits option.splits)
  with assms(2) show ?thesis
    by (simp add: render_fields)
qed

lemma step_timeout_continue:
  assumes "timer_ok s" "h \<in> set (pending s)" "1 < timeLeft s"
  shows "isActive (step (Timeout h) s)"
proof -
  from assms have a: "isActive s" "effect_deps s = (True, timeLeft s)"
    by (auto simp: timer_ok_def split: if_splits option.splits)
  with assms show ?thesis
    by (simp add: render_def commit_def effect_body_def setTimeout_def)
qed

lemma step_timeout_expire:
  assumes "timer_ok s" "h \<in> set (pending s)" "timeLeft s = 1"
  shows "timeLeft (step (Timeout h) s) = 0 \<and> \<not> isActive (step (Timeout h) s) \<and>
         pending (step (Timeout h) s) = [] \<and>
         played (step (Timeout h) s) = (if soundEnabled s then played s + 2 else played s)"
proof -
  from assms have a: "isActive s" "effect_deps s = (True, 1)" "pending s = [h]"
    by (auto simp: timer_ok_def split: if_splits option.splits)
  with assms show ?thesis
    by (simp add: render_def commit_def effect_body_def pending_cleanup split: option.splits)
qed

lemma idle_no_pending: "timer_ok s \<Longrightarrow> \<not> isActive s \<or> timeLeft s = 0 \<Longrightarrow> pending s = []"
  by (auto simp: timer_ok_def split: if_splits)

lemma active_one_pending: "timer_ok s \<Longrightarrow> isActive s \<Longrightarrow> 0 < timeLeft s \<and> length (pending s) = 1"
  by (auto simp: timer_ok_def split: if_splits option.splits)

lemma tick_idle: "timer_ok s \<Longrightarrow> \<not> isActive s \<Longrightarrow> tick s = s"
  by (simp add: tick_def idle_no_pending)

lemma tick_active:
  assumes "timer_ok s" "isActive s"
  shows "timer_ok (tick s) \<and> timeLeft (tick s) = timeLeft s - 1 \<and>
         (isActive (tick s) \<longleftrightarrow> 1 < timeLeft s) \<and>
         timerMode (tick s) = timerMode s \<and> soundEnabled (tick s) = soundEnabled s \<and>
         (timeLeft s = 1 \<longrightarrow> played (tick s) = (if soundEnabled s then played s + 2 else played s))"
proof -
  from assms obtain h where h: "pending s = [h]"
    by (auto simp: timer_ok_def split: if_splits option.splits)
  then have t: "tick s = step (Timeout h) s"
    by (simp add: tick_def)
  have m: "h \<in> set (pending s)"
    using h by simp
  have ok: "timer_ok (step (Timeout h) s)"
    using assms(1) by (rule step_ok)
  have pos: "0 < timeLeft s"
    using assms by (simp add: active_one_pending)
  have act: "isActive (step (Timeout h) s) \<longleftrightarrow> 1 < timeLeft s"
  proof
    assume "isActive (step (Timeout h) s)"
    with ok have "0 < timeLeft (step (Timeout h) s)"
      by (simp add: active_one_pending)
    with step_timeout_present [OF assms(1) m] show "1 < timeLeft s"
      by (simp del: step.simps)
  next
    assume "1 < timeLeft s"
    with assms(1) m show "isActive (step (Timeout h) s)"
      by (rule step_timeout_continue)
  qed
  show ?thesis
    using t ok act step_timeout_present [OF assms(1) m] step_timeout_expire [OF assms(1) m]
    by (simp del: step.simps)
qed

lemma ticks_active:
  "timer_ok s \<Longrightarrow> isActive s \<Longrightarrow> int n < timeLeft s \<Longrightarrow>
   timer_ok ((tick ^^ n) s) \<and> isActive ((tick ^^ n) s) \<and>
   timeLeft ((tick ^^ n) s) = timeLeft s - int n \<and>
   timerMode ((tick ^^ n) s) = timerMode s \<and> soundEnabled ((tick ^^ n) s) = soundEnabled s"
proof (induction n)
  case 0
  then show ?case by simp
next
  case (Suc n)
  then have ih: "timer_ok ((tick ^^ n) s)" "isActive ((tick ^^ n) s)"
      "timeLeft ((tick ^^ n) s) = timeLeft s - int n"
      "timerMode ((tick ^^ n) s) = timerMode s" "soundEnabled ((tick ^^ n) s) = soundEnabled s"
    by simp_all
  from tick_active [OF ih(1) ih(2)] ih(3-5) Suc.prems(3) show ?case
    by simp
qed

lemma ticks_to_zero:
  assumes "timer_ok s" "isActive s" "timeLeft s = int (Suc n)"
  shows "timeLeft ((tick ^^ Suc n) s) = 0 \<and> \<not> isActive ((tick ^^ Suc n) s) \<and>
         played ((tick ^^ Suc n) s) = (if soundEnabled s then played ((tick ^^ n) s) + 2 else played ((tick ^^ n) s))"
proof -
  from assms have "int n < timeLeft s" by simp
  from ticks_active [OF assms(1) assms(2) this]
  have a: "timer_ok ((tick ^^ n) s)" "isActive ((tick ^^ n) s)" "timeLeft ((tick ^^ n) s) = 1"
    "soundEnabled ((tick ^^ n) s) = soundEnabled s"
    using assms(3) by simp_all
  from tick_active [OF a(1) a(2)] a(3) a(4) show ?thesis
    by simp
qed

lemma reachable_tick: "reachable s \<Longrightarrow> reachable (tick s)"
  by (cases "pending s") (simp_all add: tick_def reachable.step del: step.simps)

lemma reachable_ticks: "reachable s \<Longrightarrow> reachable ((tick ^^ n) s)"
  by (induction n) (simp_all add: reachable_tick)

lemma ticks_idle: "timer_ok s \<Longrightarrow> \<not> isActive s \<Longrightarrow> (tick ^^ n) s = s"
  by (induction n) (simp_all add: tick_idle)

lemma switch_result:
  assumes "timer_ok s"
  shows "\<not> isActive (step (SwitchMode m) s) \<and> timeLeft (step (SwitchMode m) s) = MODES_time m \<and>
         timerMode (step (SwitchMode m) s) = m \<and> pending (step (SwitchMode m) s) = [] \<and>
         timer_ok (step (SwitchMode m) s)"
proof -
  have ok: "timer_ok (step (SwitchMode m) s)"
    using assms by (rule step_ok)
  have na: "\<not> isActive (step (SwitchMode m) s)"
    using render_isActive [of "switchMode m s"] by (auto simp: switchMode_def)
  from ok na have "pending (step (SwitchMode m) s) = []"
    by (simp add: idle_no_pending)
  moreover have "timeLeft (step (SwitchMode m) s) = MODES_time m"
    "timerMode (step (SwitchMode m) s) = m"
    by (simp_all add: render_fields switchMode_def)
  ultimately show ?thesis
    using ok na by (simp del: step.simps)
qed

text \<open>
  Claim C2. In every state the mounted component can reach, \<open>timeLeft\<close> is not negative.
  A running timer has time left and exactly one pending timeout; a timer that is stopped
  or at zero has none. A timeout that is not pending changes nothing when it comes due;
  a pending one comes due only in a running state with time left, and takes exactly one
  second off. When it takes the last second, the timer is at zero and stopped, nothing
  is pending, and \<open>playNotification\<close> has been called if and only if the sound flag is
  set (the effect runs for \<open>[true, 0]\<close> and again for \<open>[false, 0]\<close>, so it is called
  twice). A running timer with five seconds left is at zero and stopped after five
  ticks.
\<close>

theorem timer_counts_down_to_zero:
  "reachable s \<Longrightarrow>
   0 \<le> timeLeft s \<and>
   (isActive s \<longrightarrow> 0 < timeLeft s \<and> length (pending s) = 1) \<and>
   (\<not> isActive s \<or> timeLeft s = 0 \<longrightarrow> pending s = []) \<and>
   (\<forall>h. h \<notin> set (pending s) \<longrightarrow> step (Timeout h) s = s) \<and>
   (\<forall>h. h \<in> set (pending s) \<longrightarrow>
      isActive s \<and> 0 < timeLeft s \<and> timeLeft (step (Timeout h) s) = timeLeft s - 1) \<and>
   (\<forall>h. h \<in> set (pending s) \<longrightarrow> timeLeft s = 1 \<longrightarrow>
      timeLeft (step (Timeout h) s) = 0 \<and> \<not> isActive (step (Timeout h) s) \<and>
      pending (step (Timeout h) s) = [] \<and>
      played (step (Timeout h) s) = (if soundEnabled s then played s + 2 else played s)) \<and>
   (isActive s \<longrightarrow> timeLeft s = 5 \<longrightarrow>
      timeLeft ((tick ^^ 5) s) = 0 \<and> \<not> isActive ((tick ^^ 5) s))"
proof -
  assume "reachable s"
  then have ok: "timer_ok s"
    by (rule reachable_ok)
  have five: "timeLeft ((tick ^^ 5) s) = 0 \<and> \<not> isActive ((tick ^^ 5) s)"
    if "isActive s" "timeLeft s = 5"
    using ticks_to_zero [OF ok that(1), of 4] that(2) by (simp add: eval_nat_numeral)
  from ok have "0 \<le> timeLeft s"
    by (simp add: timer_ok_def)
  then show ?thesis
    using active_one_pending [OF ok] idle_no_pending [OF ok] step_timeout_absent [of _ s]
      step_timeout_present [OF ok] step_timeout_expire [OF ok] five
    by blast
qed

lemma started_short:
  "timer_ok (step ToggleTimer (step (SwitchMode Short) (mounted True))) \<and>
   reachable (step ToggleTimer (step (SwitchMode Short) (mounted True))) \<and>
   isActive (step ToggleTimer (step (SwitchMode Short) (mounted True))) \<and>
   timeLeft (step ToggleTimer (step (SwitchMode Short) (mounted True))) = 300 \<and>
   soundEnabled (step ToggleTimer (step (SwitchMode Short) (mounted True))) \<and>
   played (step ToggleTimer (step (SwitchMode Short) (mounted True))) = 0 \<and>
   pending (step ToggleTimer (step (SwitchMode Short) (mounted True))) = [1]"
proof -
  have r: "reachable (step ToggleTimer (step (SwitchMode Short) (mounted True)))"
    by (intro reachable.intros)
  then have "timer_ok (step ToggleTimer (step (SwitchMode Short) (mounted True)))"
    by (rule reachable_ok)
  with r show ?thesis
    by (simp add: mounted_def render_def commit_def effect_body_def setTimeout_def cleanup_def
          switchMode_def toggleTimer_def)
qed

theorem timer_counts_down_to_zero_witness:
  "reachable (step ToggleTimer (step (SwitchMode Short) (mounted True))) \<and>
   1 \<in> set (pending (step ToggleTimer (step (SwitchMode Short) (mounted True)))) \<and>
   timeLeft (step (Timeout 1) (step ToggleTimer (step (SwitchMode Short) (mounted True)))) = 299 \<and>
   reachable ((tick ^^ 295) (step ToggleTimer (step (SwitchMode Short) (mounted True)))) \<and>
   isActive ((tick ^^ 295) (step ToggleTimer (step (SwitchMode Short) (mounted True)))) \<and>
   timeLeft ((tick ^^ 295) (step ToggleTimer (step (SwitchMode Short) (mounted True)))) = 5 \<and>
   timeLeft ((tick ^^ 5)
     ((tick ^^ 295) (step ToggleTimer (step (SwitchMode Short) (mounted True))))) = 0 \<and>
   \<not> isActive ((tick ^^ 5)
     ((tick ^^ 295) (step ToggleTimer (step (SwitchMode Short) (mounted True)))))"
proof -
  let ?s = "step ToggleTimer (step (SwitchMode Short) (mounted True))"
  have s: "timer_ok ?s" "reachable ?s" "isActive ?s" "timeLeft ?s = 300" "pending ?s = [1]"
    using started_short by blast+
  have r: "reachable ((tick ^^ 295) ?s)"
    using s(2) by (rule reachable_ticks)
  have a: "isActive ((tick ^^ 295) ?s)" "timeLeft ((tick ^^ 295) ?s) = 5"
    using ticks_active [OF s(1) s(3), of 295] s(4) by simp_all
  have m: "1 \<in> set (pending ?s)"
    using s(5) by simp
  show ?thesis
    using timer_counts_down_to_zero [OF s(2)] timer_counts_down_to_zero [OF r] s m r a
    by (simp del: step.simps)
qed

text \<open>
  Claim C3. From every reachable state and for each of the three modes, \<open>switchMode\<close>
  and the renders it causes leave the timer stopped, in the new mode, with the duration
  of that mode as time left (1500, 300 and 900 seconds), and with no timeout pending:
  whatever timeout comes due afterwards, and however many seconds pass, the state stays
  as it is.
\<close>

theorem switchMode_resets_and_cancels:
  "reachable s \<Longrightarrow>
   \<not> isActive (step (SwitchMode m) s) \<and>
   timeLeft (step (SwitchMode m) s) = MODES_time m \<and>
   timerMode (step (SwitchMode m) s) = m \<and>
   pending (step (SwitchMode m) s) = [] \<and>
   (\<forall>h. step (Timeout h) (step (SwitchMode m) s) = step (SwitchMode m) s) \<and>
   (\<forall>n. (tick ^^ n) (step (SwitchMode m) s) = step (SwitchMode m) s) \<and>
   MODES_time Focus = 1500 \<and> MODES_time Short = 300 \<and> MODES_time Long = 900"
proof -
  assume "reachable s"
  then have ok: "timer_ok s"
    by (rule reachable_ok)
  note r = switch_result [OF ok, of m]
  from r have "step (Timeout h) (step (SwitchMode m) s) = step (SwitchMode m) s" for h
    by (simp del: step.simps add: step_timeout_absent)
  moreover from r have "(tick ^^ n) (step (SwitchMode m) s) = step (SwitchMode m) s" for n
    by (simp del: step.simps add: ticks_idle)
  ultimately show ?thesis
    using r by (simp del: step.simps)
qed

lemma started_focus:
  "timer_ok (step ToggleTimer (mounted True)) \<and>
   reachable (step ToggleTimer (mounted True)) \<and>
   isActive (step ToggleTimer (mounted True)) \<and>
   timeLeft (step ToggleTimer (mounted True)) = 1500 \<and>
   timerMode (step ToggleTimer (mounted True)) = Focus"
proof -
  have r: "reachable (step ToggleTimer (mounted True))"
    by (intro reachable.intros)
  then have "timer_ok (step ToggleTimer (mounted True))"
    by (rule reachable_ok)
  with r show ?thesis
    by (simp add: mounted_def render_def commit_def effect_body_def setTimeout_def cleanup_def
          toggleTimer_def)
qed

theorem switchMode_resets_and_cancels_witness:
  "reachable ((tick ^^ 600) (step ToggleTimer (mounted True))) \<and>
   timerMode ((tick ^^ 600) (step ToggleTimer (mounted True))) = Focus \<and>
   timeLeft ((tick ^^ 600) (step ToggleTimer (mounted True))) = 900 \<and>
   isActive ((tick ^^ 600) (step ToggleTimer (mounted True))) \<and>
   timeLeft (step (SwitchMode Short) ((tick ^^ 600) (step ToggleTimer (mounted True)))) = 300 \<and>
   \<not> isActive (step (SwitchMode Short) ((tick ^^ 600) (step ToggleTimer (mounted True)))) \<and>
   tick (step (SwitchMode Short) ((tick ^^ 600) (step ToggleTimer (mounted True)))) =
     step (SwitchMode Short) ((tick ^^ 600) (step ToggleTimer (mounted True)))"
proof -
  let ?s = "step ToggleTimer (mounted True)"
  have s: "timer_ok ?s" "reachable ?s" "isActive ?s" "timeLeft ?s = 1500" "timerMode ?s = Focus"
    using started_focus by blast+
  have r: "reachable ((tick ^^ 600) ?s)"
    using s(2) by (rule reachable_ticks)
  have a: "isActive ((tick ^^ 600) ?s)" "timeLeft ((tick ^^ 600) ?s) = 900"
    "timerMode ((tick ^^ 600) ?s) = Focus"
    using ticks_active [OF s(1) s(3), of 600] s(4) s(5) by simp_all
  have one: "tick (step (SwitchMode Short) ((tick ^^ 600) ?s)) =
      step (SwitchMode Short) ((tick ^^ 600) ?s)"
  proof -
    from switchMode_resets_and_cancels [OF r, of Short]
    have "(tick ^^ 1) (step (SwitchMode Short) ((tick ^^ 600) ?s)) =
        step (SwitchMode Short) ((tick ^^ 600) ?s)"
      by blast
    then show ?thesis
      by (simp del: step.simps)
  qed
  show ?thesis
    using switchMode_resets_and_cancels [OF r, of Short] r a one
    by (simp del: step.simps)
qed

lemma reachable_run: "reachable s \<Longrightarrow> reachable (run evs s)"
  unfolding run_def by (induction evs arbitrary: s) (simp_all add: reachable.step del: step.simps)

text \<open>
  Starting the timer at zero: the effect stops it again at once, and \<open>playNotification\<close>
  is called twice if the sound flag is set.
\<close>

theorem start_at_zero_expires:
  "reachable s \<Longrightarrow> timeLeft s = 0 \<Longrightarrow>
   \<not> isActive (step ToggleTimer s) \<and> timeLeft (step ToggleTimer s) = 0 \<and>
   pending (step ToggleTimer s) = [] \<and>
   played (step ToggleTimer s) = (if soundEnabled s then played s + 2 else played s)"
proof -
  assume r: "reachable s" and z: "timeLeft s = 0"
  from r have ok: "timer_ok s"
    by (rule reachable_ok)
  with z have a: "\<not> isActive s" "effect_deps s = (False, 0)" "pending s = []"
    by (auto simp: timer_ok_def split: if_splits)
  with z show ?thesis
    by (simp add: render_def commit_def effect_body_def toggleTimer_def pending_cleanup
          split: option.splits)
qed

theorem start_at_zero_expires_witness:
  "reachable ((tick ^^ 300) (step ToggleTimer (step (SwitchMode Short) (mounted True)))) \<and>
   timeLeft ((tick ^^ 300) (step ToggleTimer (step (SwitchMode Short) (mounted True)))) = 0 \<and>
   \<not> isActive (step ToggleTimer
     ((tick ^^ 300) (step ToggleTimer (step (SwitchMode Short) (mounted True))))) \<and>
   timeLeft (step ToggleTimer
     ((tick ^^ 300) (step ToggleTimer (step (SwitchMode Short) (mounted True))))) = 0"
proof -
  let ?s = "step ToggleTimer (step (SwitchMode Short) (mounted True))"
  have s: "timer_ok ?s" "reachable ?s" "isActive ?s" "timeLeft ?s = 300"
    using started_short by blast+
  have r: "reachable ((tick ^^ 300) ?s)"
    using s(2) by (rule reachable_ticks)
  have z: "timeLeft ((tick ^^ 300) ?s) = 0"
    using ticks_to_zero [OF s(1) s(3), of 299] s(4) by simp
  show ?thesis
    using start_at_zero_expires [OF r z] r z
    by (simp del: step.simps)
qed

end
